theory Spec2Isabelle
  imports Complex_Main
begin

section \<open>Data model of src/main.py\<close>

text \<open>
  The request models of the service (\<^verbatim>\<open>class User(BaseModel)\<close> and its siblings) are
  records. Strings are \<^typ>\<open>string\<close>.
\<close>

record User =
  username :: string
  password :: string
  role :: string

record PaymentRequest =
  user_id :: string
  plan :: string

text \<open>
  A value of the simulated database: the dictionary
  \<^verbatim>\<open>{"password": hashed_password, "role": user.role, "2fa_enabled": False}\<close>.
\<close>

record credential =
  cred_password :: string
  cred_role :: string
  cred_2fa_enabled :: bool

type_synonym users_db = "string \<rightharpoonup> credential"

text \<open>
  The module-level configuration, each entry the result of \<^verbatim>\<open>os.getenv\<close>, which is
  \<^verbatim>\<open>None\<close> for a variable that is not set.
\<close>

record config =
  SECRET_KEY :: "string option"
  STRIPE_API_KEY :: "string option"
  ANAF_API_URL :: "string option"
  EMAIL_API_URL :: "string option"
  SMS_API_URL :: "string option"
  WHATSAPP_API_URL :: "string option"

text \<open>
  The state of the running process: the configuration, the process environment
  (\<^verbatim>\<open>os.environ\<close>, read again by \<^verbatim>\<open>subscribe\<close>) and \<^verbatim>\<open>fake_users_db\<close>.
\<close>

record app =
  cfg :: config
  os_environ :: "string \<rightharpoonup> string"
  fake_users_db :: users_db

text \<open>\<^verbatim>\<open>HTTPException(status_code=..., detail=...)\<close>, raised by a handler.\<close>

datatype http_exception = HTTPException (status_code: nat) (detail: string)

text \<open>
  An exception raised by a library call and caught by \<^verbatim>\<open>except Exception as e\<close>;
  the string is \<^verbatim>\<open>str(e)\<close>.
\<close>

datatype exn = Exception (str: string)

text \<open>
  Points in time are microseconds (the resolution of \<^verbatim>\<open>datetime\<close>) since the epoch;
  \<^verbatim>\<open>datetime.timedelta(hours=h)\<close> is a number of microseconds.
\<close>

type_synonym datetime = int

definition timedelta_hours :: "int \<Rightarrow> int" where
  "timedelta_hours h = h * 3600 * 1000000"

text \<open>The claims dictionary handed to \<^verbatim>\<open>jwt.encode\<close> by \<^verbatim>\<open>login\<close>.\<close>

record claims =
  claim_sub :: string
  claim_role :: string
  claim_exp :: datetime

section \<open>Process start\<close>

text \<open>
  \<^verbatim>\<open>load_dotenv()\<close> adds the entries of the \<^verbatim>\<open>.env\<close> file (the empty map when there is
  no file) to the environment, keeping the variables that are already set.
\<close>

definition load_dotenv :: "(string \<rightharpoonup> string) \<Rightarrow> (string \<rightharpoonup> string) \<Rightarrow> (string \<rightharpoonup> string)" where
  "load_dotenv dotenv environ = dotenv ++ environ"

text \<open>
  The module body: the environment is read into the six globals and the user table
  starts empty. Nothing here inspects the values read, and nothing raises.
\<close>

definition startup :: "(string \<rightharpoonup> string) \<Rightarrow> (string \<rightharpoonup> string) \<Rightarrow> app" where
  "startup dotenv environ =
     (let getenv = load_dotenv dotenv environ in
      \<lparr>cfg = \<lparr>SECRET_KEY = getenv ''SECRET_KEY'',
               STRIPE_API_KEY = getenv ''STRIPE_SECRET_KEY'',
               ANAF_API_URL = getenv ''ANAF_API_URL'',
               EMAIL_API_URL = getenv ''EMAIL_API_URL'',
               SMS_API_URL = getenv ''SMS_API_URL'',
               WHATSAPP_API_URL = getenv ''WHATSAPP_API_URL''\<rparr>,
       os_environ = getenv,
       fake_users_db = Map.empty\<rparr>)"

section \<open>Registration and login\<close>

text \<open>
  \<^verbatim>\<open>register\<close> and \<^verbatim>\<open>login\<close> have no \<^verbatim>\<open>try\<close>: a handler ends by returning its body, by
  raising its own \<^verbatim>\<open>HTTPException\<close>, or with the exception of a library call, which
  nothing catches (the framework answers that request with status 500).
\<close>

datatype failure = HTTPError http_exception | Uncaught exn

text \<open>
  The password hasher \<^verbatim>\<open>password_context\<close> is an object of the passlib library and
  \<^verbatim>\<open>jwt.encode\<close> a function of the PyJWT library; their code is not part of the
  repository. The handlers take the three library calls as parameters, and each call
  either raises or returns: \<open>hash salt plaintext\<close> is a digest (the salt stands for the
  random choice made inside each call of \<^verbatim>\<open>password_context.hash\<close>),
  \<open>verify plaintext digest\<close> is a truth value, \<open>encode payload key algorithm\<close> is a token.

  \<^verbatim>\<open>
  def register(user: User):
      hashed_password = password_context.hash(user.password)
      fake_users_db[user.username] = {"password": hashed_password, "role": user.role, "2fa_enabled": False}
      return {"msg": "User successfully registered"}
  \<close>
  The handler returns its outcome (the JSON body, an association list, when it
  returns) and the state it leaves; when the hasher raises, the table is not touched.
\<close>

definition register ::
  "('s \<Rightarrow> string \<Rightarrow> exn + string) \<Rightarrow> 's \<Rightarrow> app \<Rightarrow> User \<Rightarrow>
   (failure + (string \<times> string) list) \<times> app" where
  "register hash salt st user =
     (case hash salt (password user) of
        Inl e \<Rightarrow> (Inl (Uncaught e), st)
      | Inr hashed_password \<Rightarrow>
          (Inr [(''msg'', ''User successfully registered'')],
           st\<lparr>fake_users_db := (fake_users_db st)(username user \<mapsto>
                \<lparr>cred_password = hashed_password, cred_role = role user,
                 cred_2fa_enabled = False\<rparr>)\<rparr>))"

text \<open>
  \<^verbatim>\<open>
  def login(user: User):
      if user.username not in fake_users_db or not password_context.verify(user.password, fake_users_db[user.username]["password"]):
          raise HTTPException(status_code=400, detail="Invalid credentials")
      token = jwt.encode({"sub": user.username, "role": fake_users_db[user.username]["role"], "exp": datetime.datetime.utcnow() + datetime.timedelta(hours=1)}, SECRET_KEY, algorithm="HS256")
      return {"access_token": token}
  \<close>
  The clock reading \<^verbatim>\<open>utcnow()\<close> is an input. The \<^verbatim>\<open>or\<close> is short-circuit: the digest
  is read, and \<^verbatim>\<open>verify\<close> called, only for a username that is present.
\<close>

definition login ::
  "(string \<Rightarrow> string \<Rightarrow> exn + bool) \<Rightarrow> (claims \<Rightarrow> string option \<Rightarrow> string \<Rightarrow> exn + 't) \<Rightarrow>
   app \<Rightarrow> datetime \<Rightarrow> User \<Rightarrow> failure + (string \<times> 't) list" where
  "login verify encode st utcnow user =
     (case fake_users_db st (username user) of
        None \<Rightarrow> Inl (HTTPError (HTTPException 400 ''Invalid credentials''))
      | Some entry \<Rightarrow>
          (case verify (password user) (cred_password entry) of
             Inl e \<Rightarrow> Inl (Uncaught e)
           | Inr verified \<Rightarrow>
               if \<not> verified
               then Inl (HTTPError (HTTPException 400 ''Invalid credentials''))
               else
                 (case encode \<lparr>claim_sub = username user, claim_role = cred_role entry,
                                claim_exp = utcnow + timedelta_hours 1\<rparr>
                         (SECRET_KEY (cfg st)) ''HS256'' of
                    Inl e \<Rightarrow> Inl (Uncaught e)
                  | Inr token \<Rightarrow> Inr [(''access_token'', token)])))"

section \<open>Session tokens\<close>

text \<open>
  Modelled from the spec: the Session Issuer's signing primitive and its
  \<^verbatim>\<open>verify(token)\<close>. src/main.py hands the signing to \<^verbatim>\<open>jwt.encode\<close> and contains no
  token verification at all. The spec: "builds a claims set {sub: username, role, exp:
  now+ttl}, signs it with the process-wide secret key using a symmetric signing
  algorithm, returns the serialized token", and "verify(token) -> claims | invalid:
  checks signature integrity against the secret key and checks exp > now". Signing is
  symbolic: a token is the claims set together with the key and the algorithm it was
  signed with, and a signature matches a key exactly when it was made with that key.
\<close>

datatype token = Token (token_claims: claims) (token_key: "string option") (token_alg: string)

definition jwt_encode :: "claims \<Rightarrow> string option \<Rightarrow> string \<Rightarrow> token" where
  "jwt_encode payload key algorithm = Token payload key algorithm"

definition verify_token :: "string option \<Rightarrow> datetime \<Rightarrow> token \<Rightarrow> claims option" where
  "verify_token key now t =
     (if token_key t = key \<and> claim_exp (token_claims t) > now
      then Some (token_claims t) else None)"

section \<open>Stand-ins for the libraries\<close>

text \<open>
  Concrete functions to put in the place of the three library calls when a handler is
  evaluated on a concrete request. They keep the behaviour of the libraries that the
  examples turn on. The bcrypt hasher of passlib raises \<^verbatim>\<open>PasswordValueError\<close> for a
  password that contains a NUL byte, and it reads the first 72 bytes of a password
  only; the digest of the stand-in is the salt, a dollar sign and those bytes.
  \<^verbatim>\<open>jwt.encode\<close> raises \<^verbatim>\<open>TypeError\<close> for the HS256 key \<^verbatim>\<open>None\<close>; for a string key the
  stand-in signs symbolically, as above. The strings in the exceptions only name them.
\<close>

definition example_hash :: "string \<Rightarrow> string \<Rightarrow> exn + string" where
  "example_hash salt secret =
     (if CHR 0x00 \<in> set secret then Inl (Exception ''PasswordValueError'')
      else Inr (salt @ ''$'' @ take 72 secret))"

definition example_verify :: "string \<Rightarrow> string \<Rightarrow> exn + bool" where
  "example_verify secret digest =
     (if CHR 0x00 \<in> set secret then Inl (Exception ''PasswordValueError'')
      else Inr (dropWhile (\<lambda>c. c \<noteq> CHR ''$'') digest = ''$'' @ take 72 secret))"

definition example_encode :: "claims \<Rightarrow> string option \<Rightarrow> string \<Rightarrow> exn + token" where
  "example_encode payload key algorithm =
     (case key of
        None \<Rightarrow> Inl (Exception ''TypeError'')
      | Some k \<Rightarrow> Inr (jwt_encode payload key algorithm))"

section \<open>Outbound calls\<close>

text \<open>
  What a handler does to the outside world, in order: an HTTP POST (URL and JSON
  body), the creation of a checkout session (given below), a line written by
  \<^verbatim>\<open>logging.error\<close>.
\<close>

record price_data =
  currency :: string
  product_data_name :: string
  unit_amount :: int

record line_item =
  item_price_data :: price_data
  quantity :: int

record session_params =
  payment_method_types :: "string list"
  line_items :: "line_item list"
  mode :: string
  success_url :: string
  cancel_url :: string

datatype event =
    Post "string option" "(string \<times> string) list"
  | SessionCreate "string option" session_params
  | LogError string

text \<open>How an f-string prints the result of \<^verbatim>\<open>os.getenv\<close>.\<close>

definition format_opt :: "string option \<Rightarrow> string" where
  "format_opt v = (case v of None \<Rightarrow> ''None'' | Some s \<Rightarrow> s)"

text \<open>
  \<^verbatim>\<open>
  def send_notification(email: str, phone: str, message: str):
      try:
          requests.post(EMAIL_API_URL, json={"email": email, "message": message})
          requests.post(SMS_API_URL, json={"phone": phone, "message": message})
          requests.post(WHATSAPP_API_URL, json={"phone": phone, "message": message})
          return {"msg": "Notification sent successfully"}
      except Exception as e:
          logging.error(f"Error sending notification: {e}")
          return {"error": f"Error sending notification: {str(e)}"}
  \<close>
  \<open>post\<close> is \<^verbatim>\<open>requests.post\<close>: given the calls made so far in this request, the URL
  and the body, it either raises or returns a response (which the handler drops). The
  handler returns its JSON body and the events it caused.
\<close>

definition send_notification ::
  "(event list \<Rightarrow> string option \<Rightarrow> (string \<times> string) list \<Rightarrow> exn + 'r) \<Rightarrow> app \<Rightarrow>
   string \<Rightarrow> string \<Rightarrow> string \<Rightarrow> (string \<times> string) list \<times> event list" where
  "send_notification post st email phone message =
     (let failed = (\<lambda>trace e.
            ([(''error'', ''Error sending notification: '' @ str e)],
             trace @ [LogError (''Error sending notification: '' @ str e)]));
          email_json = [(''email'', email), (''message'', message)];
          phone_json = [(''phone'', phone), (''message'', message)];
          t1 = [Post (EMAIL_API_URL (cfg st)) email_json];
          t2 = t1 @ [Post (SMS_API_URL (cfg st)) phone_json];
          t3 = t2 @ [Post (WHATSAPP_API_URL (cfg st)) phone_json]
      in case post [] (EMAIL_API_URL (cfg st)) email_json of
           Inl e \<Rightarrow> failed t1 e
         | Inr _ \<Rightarrow>
             (case post t1 (SMS_API_URL (cfg st)) phone_json of
                Inl e \<Rightarrow> failed t2 e
              | Inr _ \<Rightarrow>
                  (case post t2 (WHATSAPP_API_URL (cfg st)) phone_json of
                     Inl e \<Rightarrow> failed t3 e
                   | Inr _ \<Rightarrow> ([(''msg'', ''Notification sent successfully'')], t3))))"

text \<open>
  \<^verbatim>\<open>
  def subscribe(request: PaymentRequest):
      try:
          plan_prices = {"basic": 100, "pro": 200, "enterprise": 500}
          amount = plan_prices.get(request.plan, 100) * 100
          session = stripe.checkout.Session.create(
              payment_method_types=["card"],
              line_items=[{
                  "price_data": {
                      "currency": "ron",
                      "product_data": {"name": request.plan},
                      "unit_amount": amount,
                  },
                  "quantity": 1,
              }],
              mode="payment",
              success_url=f"https://{os.getenv('APP_DOMAIN')}/success",
              cancel_url=f"https://{os.getenv('APP_DOMAIN')}/cancel",
          )
          return {"session_id": session.id}
      except Exception as e:
          logging.error(f"Error processing subscription: {e}")
          raise HTTPException(status_code=500, detail=str(e))
  \<close>
  \<open>create\<close> is \<^verbatim>\<open>stripe.checkout.Session.create\<close> under the API key set at process
  start (\<^verbatim>\<open>stripe.api_key = STRIPE_API_KEY\<close>): it raises, or returns the \<^verbatim>\<open>id\<close> of
  the session it made.
\<close>

definition plan_prices :: "(string \<times> int) list" where
  "plan_prices = [(''basic'', 100), (''pro'', 200), (''enterprise'', 500)]"

definition subscribe ::
  "(string option \<Rightarrow> session_params \<Rightarrow> exn + string) \<Rightarrow> app \<Rightarrow> PaymentRequest \<Rightarrow>
   (http_exception + (string \<times> string) list) \<times> event list" where
  "subscribe create st request =
     (let amount = (case map_of plan_prices (plan request) of
                      None \<Rightarrow> 100 | Some price \<Rightarrow> price) * 100;
          params = \<lparr>payment_method_types = [''card''],
                    line_items = [\<lparr>item_price_data =
                                     \<lparr>currency = ''ron'',
                                      product_data_name = plan request,
                                      unit_amount = amount\<rparr>,
                                   quantity = 1\<rparr>],
                    mode = ''payment'',
                    success_url = ''https://'' @ format_opt (os_environ st ''APP_DOMAIN'')
                                    @ ''/success'',
                    cancel_url = ''https://'' @ format_opt (os_environ st ''APP_DOMAIN'')
                                    @ ''/cancel''\<rparr>;
          trace = [SessionCreate (STRIPE_API_KEY (cfg st)) params]
      in case create (STRIPE_API_KEY (cfg st)) params of
           Inl e \<Rightarrow> (Inl (HTTPException 500 (str e)),
                     trace @ [LogError (''Error processing subscription: '' @ str e)])
         | Inr session_id \<Rightarrow> (Inr [(''session_id'', session_id)], trace))"

section \<open>Floating-point numbers\<close>

text \<open>
  A Python \<^verbatim>\<open>float\<close> is an IEEE 754 binary64 number. \<open>Finite s m e\<close> is the number
  \<open>(-1)\<^sup>s * m * 2\<^sup>e\<close> (\<open>s\<close> true for a negative sign, so that there are two zeros);
  \<open>is_double\<close> below says that \<open>m\<close> and \<open>e\<close> are the significand and exponent of a
  binary64 number, subnormal or normal.
\<close>

datatype double = Finite bool int int | Infinity bool | NaN

text \<open>The two exceptions that float arithmetic and \<^verbatim>\<open>round\<close> can raise.\<close>

datatype py_error = ZeroDivisionError | OverflowError

text \<open>\<open>ilog2 n\<close> is the position of the leading bit of a positive integer.\<close>

function ilog2 :: "int \<Rightarrow> nat" where
  "ilog2 n = (if n < 2 then 0 else Suc (ilog2 (n div 2)))"
  by pat_completeness auto
termination
  by (relation "measure nat") auto

declare ilog2.simps [simp del]

text \<open>The integer nearest to \<open>n / d\<close>, a tie going to the even one.\<close>

definition round_half_even :: "int \<Rightarrow> int \<Rightarrow> int" where
  "round_half_even n d =
     (let q = n div d; r = n mod d
      in if d < 2 * r \<or> (2 * r = d \<and> odd q) then q + 1 else q)"

text \<open>\<open>floor_log2 n d\<close> is the integer \<open>g\<close> with \<open>2\<^sup>g \<le> n / d < 2\<^sup>g\<^sup>+\<^sup>1\<close>.\<close>

definition floor_log2 :: "int \<Rightarrow> int \<Rightarrow> int" where
  "floor_log2 n d =
     (let g = int (ilog2 n) - int (ilog2 d)
      in if (if 0 \<le> g then d * 2 ^ nat g \<le> n else d \<le> n * 2 ^ nat (- g)) then g else g - 1)"

definition is_double :: "double \<Rightarrow> bool" where
  "is_double x =
     (case x of
        Finite s m e \<Rightarrow>
          (0 \<le> m \<and> m < 2 ^ 52 \<and> e = - 1074) \<or>
          (2 ^ 52 \<le> m \<and> m < 2 ^ 53 \<and> - 1074 \<le> e \<and> e \<le> 971)
      | Infinity s \<Rightarrow> True
      | NaN \<Rightarrow> True)"

text \<open>\<open>scaled_round n d k\<close> rounds \<open>n / d * 2\<^sup>k\<close> to the nearest integer, ties to even.\<close>

definition scaled_round :: "int \<Rightarrow> int \<Rightarrow> int \<Rightarrow> int" where
  "scaled_round n d k =
     (if 0 \<le> k then round_half_even (n * 2 ^ nat k) d
      else round_half_even n (d * 2 ^ nat (- k)))"

text \<open>
  The binary64 number nearest to \<open>n / d * 2\<^sup>e\<close> (round to nearest, ties to even), with
  sign \<open>s\<close>: the unit in the last place is \<open>2\<close> to the power \<open>ulp\<close>, which is at least
  \<open>-1074\<close> (subnormal numbers); a result beyond the largest finite number is an infinity.
  Every arithmetic operation of a \<^verbatim>\<open>float\<close> is the exact result rounded so.
\<close>

definition round_to_double :: "bool \<Rightarrow> int \<Rightarrow> int \<Rightarrow> int \<Rightarrow> double" where
  "round_to_double s n d e =
     (if n = 0 then Finite s 0 (- 1074)
      else
        let ulp = max (floor_log2 n d + e - 52) (- 1074);
            k = e - ulp;
            m = scaled_round n d k
        in if m = 2 ^ 53
           then (if 971 < ulp + 1 then Infinity s else Finite s (2 ^ 52) (ulp + 1))
           else (if 971 < ulp then Infinity s else Finite s m ulp))"

text \<open>
  The conversion of a Python \<^verbatim>\<open>int\<close> to \<^verbatim>\<open>float\<close>, which the division by the literal
  \<^verbatim>\<open>100\<close> does; it raises for an integer too large for a float.
\<close>

definition float_of_int :: "int \<Rightarrow> py_error + double" where
  "float_of_int i =
     (case round_to_double (i < 0) \<bar>i\<bar> 1 0 of
        Infinity s \<Rightarrow> Inl OverflowError
      | x \<Rightarrow> Inr x)"

text \<open>
  \<^verbatim>\<open>x * y\<close>, \<^verbatim>\<open>x / y\<close> and \<^verbatim>\<open>x + y\<close> on floats. Python raises \<^verbatim>\<open>ZeroDivisionError\<close> for a
  zero divisor; the other special cases are those of IEEE 754.
\<close>

fun float_mul :: "double \<Rightarrow> double \<Rightarrow> double" where
  "float_mul NaN y = NaN"
| "float_mul x NaN = NaN"
| "float_mul (Infinity s1) (Infinity s2) = Infinity (s1 \<noteq> s2)"
| "float_mul (Infinity s1) (Finite s2 m2 e2) = (if m2 = 0 then NaN else Infinity (s1 \<noteq> s2))"
| "float_mul (Finite s1 m1 e1) (Infinity s2) = (if m1 = 0 then NaN else Infinity (s1 \<noteq> s2))"
| "float_mul (Finite s1 m1 e1) (Finite s2 m2 e2) =
     round_to_double (s1 \<noteq> s2) (m1 * m2) 1 (e1 + e2)"

fun float_truediv :: "double \<Rightarrow> double \<Rightarrow> py_error + double" where
  "float_truediv x (Finite s2 m2 e2) =
     (if m2 = 0 then Inl ZeroDivisionError
      else case x of
             NaN \<Rightarrow> Inr NaN
           | Infinity s1 \<Rightarrow> Inr (Infinity (s1 \<noteq> s2))
           | Finite s1 m1 e1 \<Rightarrow> Inr (round_to_double (s1 \<noteq> s2) m1 m2 (e1 - e2)))"
| "float_truediv NaN y = Inr NaN"
| "float_truediv x NaN = Inr NaN"
| "float_truediv (Infinity s1) (Infinity s2) = Inr NaN"
| "float_truediv (Finite s1 m1 e1) (Infinity s2) = Inr (Finite (s1 \<noteq> s2) 0 (- 1074))"

fun float_add :: "double \<Rightarrow> double \<Rightarrow> double" where
  "float_add NaN y = NaN"
| "float_add x NaN = NaN"
| "float_add (Infinity s1) (Infinity s2) = (if s1 = s2 then Infinity s1 else NaN)"
| "float_add (Infinity s1) (Finite s2 m2 e2) = Infinity s1"
| "float_add (Finite s1 m1 e1) (Infinity s2) = Infinity s2"
| "float_add (Finite s1 m1 e1) (Finite s2 m2 e2) =
     (let e = min e1 e2;
          a = (if s1 then - m1 else m1) * 2 ^ nat (e1 - e);
          b = (if s2 then - m2 else m2) * 2 ^ nat (e2 - e);
          i = a + b
      in if i = 0 then Finite (s1 \<and> s2) 0 (- 1074)
         else round_to_double (i < 0) \<bar>i\<bar> 1 e)"

text \<open>
  \<^verbatim>\<open>round(x, ndigits)\<close> for a non-negative \<^verbatim>\<open>ndigits\<close>, as CPython computes it: a
  number that is not finite is returned as it is, and so is \<open>x\<close> when \<^verbatim>\<open>ndigits\<close> is
  above 323; otherwise \<open>x\<close> is rounded correctly (ties to even) to \<open>c / 10\<^sup>n\<^sup>d\<^sup>i\<^sup>g\<^sup>i\<^sup>t\<^sup>s\<close>, that
  decimal is converted back to the nearest float, and \<^verbatim>\<open>OverflowError\<close> is raised when
  this is not finite.
\<close>

definition py_round :: "double \<Rightarrow> nat \<Rightarrow> py_error + double" where
  "py_round x ndigits =
     (case x of
        NaN \<Rightarrow> Inr x
      | Infinity s \<Rightarrow> Inr x
      | Finite s m e \<Rightarrow>
          if 323 < ndigits then Inr x
          else
            let c = scaled_round (m * 10 ^ ndigits) 1 e
            in case round_to_double s c (10 ^ ndigits) 0 of
                 Infinity s' \<Rightarrow> Inl OverflowError
               | rounded \<Rightarrow> Inr rounded)"

section \<open>Tax calculation\<close>

text \<open>
  \<^verbatim>\<open>
  class TaxRequest(BaseModel):
      suma: float
      cota_tva: float

  def calculate_tva(request: TaxRequest):
      tva = request.suma * (request.cota_tva / 100)
      total = request.suma + tva
      return {"TVA": round(tva, 2), "Total": round(total, 2)}
  \<close>
\<close>

record TaxRequest =
  suma :: double
  cota_tva :: double

record tva_response =
  TVA :: double
  Total :: double

definition calculate_tva :: "TaxRequest \<Rightarrow> py_error + tva_response" where
  "calculate_tva request =
     (case float_of_int 100 of
        Inl err \<Rightarrow> Inl err
      | Inr hundred \<Rightarrow>
          (case float_truediv (cota_tva request) hundred of
             Inl err \<Rightarrow> Inl err
           | Inr rate \<Rightarrow>
               (let tva = float_mul (suma request) rate;
                    total = float_add (suma request) tva
                in case py_round tva 2 of
                     Inl err \<Rightarrow> Inl err
                   | Inr r_tva \<Rightarrow>
                       (case py_round total 2 of
                          Inl err \<Rightarrow> Inl err
                        | Inr r_total \<Rightarrow> Inr \<lparr>TVA = r_tva, Total = r_total\<rparr>))))"

section \<open>Properties\<close>

subsection \<open>Login\<close>

text \<open>
  The outcomes of \<^verbatim>\<open>login\<close> that do not return a token: status 400 for a username
  that is not in the store and for a password that the hasher rejects on the stored
  digest, and the hasher's own exception when \<^verbatim>\<open>verify\<close> raises.
\<close>

lemma login_unknown_username:
  "username user \<notin> dom (fake_users_db st) \<Longrightarrow>
   login verify encode st utcnow user
   = Inl (HTTPError (HTTPException 400 ''Invalid credentials''))"
  by (auto simp: login_def domIff split: option.splits)

lemma login_rejected_password:
  "fake_users_db st (username user) = Some entry \<Longrightarrow>
   verify (password user) (cred_password entry) = Inr False \<Longrightarrow>
   login verify encode st utcnow user
   = Inl (HTTPError (HTTPException 400 ''Invalid credentials''))"
  by (simp add: login_def)

lemma login_verify_raises:
  "fake_users_db st (username user) = Some entry \<Longrightarrow>
   verify (password user) (cred_password entry) = Inl e \<Longrightarrow>
   login verify encode st utcnow user = Inl (Uncaught e)"
  by (simp add: login_def)

text \<open>
  Claim C3. The claim asks for status 400 "Invalid credentials" on every login whose
  username is unknown or whose password does not verify against the stored digest. The
  handler answers so when the username is unknown and when the hasher returns false,
  but it calls \<^verbatim>\<open>password_context.verify\<close> outside any \<^verbatim>\<open>try\<close>, and a wrong password on
  which the hasher raises is not answered with 400. The user ana is registered with
  the password "secret"; a login as ana with the three-byte password a, NUL, b ends
  with the uncaught \<^verbatim>\<open>PasswordValueError\<close> of the hasher, not with the 400 of the claim.
\<close>

theorem login_nul_password_uncaught:
  "fake_users_db
     (snd (register example_hash ''s1'' (startup Map.empty [''SECRET_KEY'' \<mapsto> ''k''])
             \<lparr>username = ''ana'', password = ''secret'', role = ''user''\<rparr>)) ''ana''
   = Some \<lparr>cred_password = ''s1$secret'', cred_role = ''user'', cred_2fa_enabled = False\<rparr>
   \<and> login example_verify example_encode
        (snd (register example_hash ''s1'' (startup Map.empty [''SECRET_KEY'' \<mapsto> ''k''])
                \<lparr>username = ''ana'', password = ''secret'', role = ''user''\<rparr>)) 0
        \<lparr>username = ''ana'', password = [CHR ''a'', CHR 0x00, CHR ''b''], role = ''user''\<rparr>
      = Inl (Uncaught (Exception ''PasswordValueError''))
   \<and> login example_verify example_encode
        (snd (register example_hash ''s1'' (startup Map.empty [''SECRET_KEY'' \<mapsto> ''k''])
                \<lparr>username = ''ana'', password = ''secret'', role = ''user''\<rparr>)) 0
        \<lparr>username = ''ana'', password = [CHR ''a'', CHR 0x00, CHR ''b''], role = ''user''\<rparr>
      \<noteq> Inl (HTTPError (HTTPException 400 ''Invalid credentials''))"
  by (simp add: login_def register_def startup_def load_dotenv_def example_hash_def
        example_verify_def Let_def)

text \<open>
  Claim C4. A login that succeeds belongs to a registered user whose password
  verified, and its body carries the token that the encoder makes from the claims
  \<open>sub\<close> = the username, \<open>role\<close> = the role stored for that username, \<open>exp\<close> = the
  clock reading plus one hour (3600 * 1000000 microseconds), with the process-wide
  \<^verbatim>\<open>SECRET_KEY\<close> and the algorithm HS256. Signed symbolically and checked as the
  spec's \<^verbatim>\<open>verify(token)\<close> does, that token is valid at the moment of issuance and
  until its expiry, and invalid at every time after its expiry.
\<close>

theorem login_token_claims_and_validity:
  assumes "login verify encode st utcnow user = Inr body"
  shows "\<exists>entry token. fake_users_db st (username user) = Some entry \<and>
           verify (password user) (cred_password entry) = Inr True \<and>
           (let payload = \<lparr>claim_sub = username user, claim_role = cred_role entry,
                            claim_exp = utcnow + 3600 * 1000000\<rparr>;
                signed = jwt_encode payload (SECRET_KEY (cfg st)) ''HS256''
            in encode payload (SECRET_KEY (cfg st)) ''HS256'' = Inr token
             \<and> body = [(''access_token'', token)]
             \<and> verify_token (SECRET_KEY (cfg st)) utcnow signed = Some payload
             \<and> (\<forall>t. utcnow \<le> t \<and> t < claim_exp payload \<longrightarrow>
                    verify_token (SECRET_KEY (cfg st)) t signed = Some payload)
             \<and> (\<forall>t. claim_exp payload < t \<longrightarrow>
                    verify_token (SECRET_KEY (cfg st)) t signed = None))"
  using assms
  by (auto simp: login_def Let_def timedelta_hours_def jwt_encode_def verify_token_def
           split: option.splits sum.splits if_splits)

theorem login_token_claims_and_validity_witness:
  "login example_verify example_encode
     (snd (register example_hash ''s1'' (startup Map.empty [''SECRET_KEY'' \<mapsto> ''k''])
             \<lparr>username = ''ana'', password = ''secret'', role = ''admin''\<rparr>)) 7
     \<lparr>username = ''ana'', password = ''secret'', role = ''''\<rparr>
   = Inr [(''access_token'',
           Token \<lparr>claim_sub = ''ana'', claim_role = ''admin'', claim_exp = 3600000007\<rparr>
             (Some ''k'') ''HS256'')]
   \<and> verify_token (Some ''k'') 7
        (Token \<lparr>claim_sub = ''ana'', claim_role = ''admin'', claim_exp = 3600000007\<rparr>
           (Some ''k'') ''HS256'')
      = Some \<lparr>claim_sub = ''ana'', claim_role = ''admin'', claim_exp = 3600000007\<rparr>
   \<and> verify_token (Some ''k'') 3600000008
        (Token \<lparr>claim_sub = ''ana'', claim_role = ''admin'', claim_exp = 3600000007\<rparr>
           (Some ''k'') ''HS256'')
      = None"
proof -
  let ?st = "snd (register example_hash ''s1'' (startup Map.empty [''SECRET_KEY'' \<mapsto> ''k''])
                   \<lparr>username = ''ana'', password = ''secret'', role = ''admin''\<rparr>)"
  let ?user = "\<lparr>username = ''ana'', password = ''secret'', role = ''''\<rparr>"
  let ?payload = "\<lparr>claim_sub = ''ana'', claim_role = ''admin'', claim_exp = 3600000007\<rparr>"
  have a: "login example_verify example_encode ?st 7 ?user
             = Inr [(''access_token'', Token ?payload (Some ''k'') ''HS256'')]"
    by (simp add: Let_def login_def register_def startup_def load_dotenv_def timedelta_hours_def
        jwt_encode_def example_hash_def example_verify_def example_encode_def)
  show ?thesis
    using login_token_claims_and_validity [OF a] a
    by (simp add: Let_def register_def startup_def load_dotenv_def jwt_encode_def
          example_hash_def)
qed

subsection \<open>Registration\<close>




subsection \<open>Process start without a signing key\<close>

text \<open>
  Claim C8, as the spec states it, fails: started with an empty environment and no
  \<^verbatim>\<open>.env\<close> file, the process is up with \<^verbatim>\<open>SECRET_KEY = None\<close>; it serves a registration
  with the success message and answers a login.
\<close>

theorem absent_secret_key_counterexample:
  "SECRET_KEY (cfg (startup Map.empty Map.empty)) = None
   \<and> fst (register example_hash ''s1'' (startup Map.empty Map.empty)
            \<lparr>username = ''ana'', password = ''secret'', role = ''user''\<rparr>)
       = Inr [(''msg'', ''User successfully registered'')]
   \<and> login example_verify example_encode (startup Map.empty Map.empty) 0
         \<lparr>username = ''ana'', password = ''secret'', role = ''user''\<rparr>
       = Inl (HTTPError (HTTPException 400 ''Invalid credentials''))"
  by (simp add: startup_def load_dotenv_def register_def login_def example_hash_def Let_def)

text \<open>
  Claim C8, amended. When \<^verbatim>\<open>SECRET_KEY\<close> is set neither in the environment nor in the
  \<^verbatim>\<open>.env\<close> file, the process does not refuse to start: process start raises nothing,
  the process is up with \<^verbatim>\<open>SECRET_KEY = None\<close> and an empty user table, and it serves
  requests (registration is answered as with a key, a login for an unknown user with
  status 400). It issues no token without a signing key: the token encoder raises for
  the key \<^verbatim>\<open>None\<close>, so no login returns a token, whatever the user table holds.
\<close>

theorem startup_without_secret_key:
  assumes "''SECRET_KEY'' \<notin> dom dotenv" and "''SECRET_KEY'' \<notin> dom environ"
      and "\<forall>payload. \<exists>e. encode payload None ''HS256'' = Inl e"
  shows "SECRET_KEY (cfg (startup dotenv environ)) = None
         \<and> fake_users_db (startup dotenv environ) = Map.empty
         \<and> fst (register hash salt (startup dotenv environ) user)
             = (case hash salt (password user) of
                  Inl e \<Rightarrow> Inl (Uncaught e)
                | Inr digest \<Rightarrow> Inr [(''msg'', ''User successfully registered'')])
         \<and> login verify encode (startup dotenv environ) utcnow user
             = Inl (HTTPError (HTTPException 400 ''Invalid credentials''))
         \<and> (\<forall>db t request body.
               login verify encode ((startup dotenv environ)\<lparr>fake_users_db := db\<rparr>) t request
               \<noteq> Inr body)"
proof -
  have key: "SECRET_KEY (cfg (startup dotenv environ)) = None"
    using assms(1,2) by (simp add: startup_def load_dotenv_def Let_def map_add_def domIff)
  have no_token: "login verify encode ((startup dotenv environ)\<lparr>fake_users_db := db\<rparr>) t request
                  \<noteq> Inr body" for db t request body
  proof -
    obtain e where "encode \<lparr>claim_sub = username request,
                            claim_role = cred_role (the (db (username request))),
                            claim_exp = t + timedelta_hours 1\<rparr> None ''HS256'' = Inl e"
      using assms(3) by blast
    then show ?thesis
      using key by (auto simp: login_def split: option.splits sum.splits)
  qed
  show ?thesis
    using key no_token
    by (auto simp: startup_def load_dotenv_def register_def login_def Let_def
          split: sum.splits)
qed

theorem startup_without_secret_key_witness:
  "SECRET_KEY (cfg (startup [''APP_DOMAIN'' \<mapsto> ''fiscal.example'']
                            [''STRIPE_SECRET_KEY'' \<mapsto> ''sk''])) = None
   \<and> register example_hash ''s1''
        (startup [''APP_DOMAIN'' \<mapsto> ''fiscal.example''] [''STRIPE_SECRET_KEY'' \<mapsto> ''sk''])
        \<lparr>username = ''ana'', password = ''secret'', role = ''user''\<rparr>
      = (Inr [(''msg'', ''User successfully registered'')],
         (startup [''APP_DOMAIN'' \<mapsto> ''fiscal.example''] [''STRIPE_SECRET_KEY'' \<mapsto> ''sk''])
           \<lparr>fake_users_db := [''ana'' \<mapsto> \<lparr>cred_password = ''s1$secret'', cred_role = ''user'',
                                           cred_2fa_enabled = False\<rparr>]\<rparr>)
   \<and> login example_verify example_encode
        ((startup [''APP_DOMAIN'' \<mapsto> ''fiscal.example''] [''STRIPE_SECRET_KEY'' \<mapsto> ''sk''])
           \<lparr>fake_users_db := [''ana'' \<mapsto> \<lparr>cred_password = ''s1$secret'', cred_role = ''user'',
                                           cred_2fa_enabled = False\<rparr>]\<rparr>) 0
        \<lparr>username = ''ana'', password = ''secret'', role = ''user''\<rparr>
      = Inl (Uncaught (Exception ''TypeError''))"
proof -
  have a: "''SECRET_KEY'' \<notin> dom [''APP_DOMAIN'' \<mapsto> ''fiscal.example'']" by simp
  have b: "''SECRET_KEY'' \<notin> dom [''STRIPE_SECRET_KEY'' \<mapsto> ''sk'']" by simp
  have c: "\<forall>payload. \<exists>e. example_encode payload None ''HS256'' = Inl e"
    by (simp add: example_encode_def)
  show ?thesis
    using startup_without_secret_key
            [where hash = example_hash and salt = "''s1''"
               and user = "\<lparr>username = ''ana'', password = ''secret'', role = ''user''\<rparr>"
               and verify = example_verify and encode = example_encode and utcnow = 0,
             OF a b c]
    by (simp add: startup_def load_dotenv_def register_def login_def Let_def
          example_hash_def example_verify_def example_encode_def timedelta_hours_def)
qed

text \<open>
  Claim C9. When a channel call of \<^verbatim>\<open>send_notification\<close> raises, the calls after it
  are not made and the handler returns the body \<^verbatim>\<open>{"error": "Error sending
  notification: " + str(e)}\<close> instead of the success message: if the email call
  raises, it is the only call made; if the SMS call raises, only the email and SMS
  calls are made; and a failure of the last call, WhatsApp, gives the error body too.
\<close>

theorem send_notification_fail_fast:
  "(post [] (EMAIL_API_URL (cfg st)) [(''email'', email), (''message'', message)] = Inl e \<longrightarrow>
      send_notification post st email phone message
      = ([(''error'', ''Error sending notification: '' @ str e)],
         [Post (EMAIL_API_URL (cfg st)) [(''email'', email), (''message'', message)],
          LogError (''Error sending notification: '' @ str e)]))
   \<and> (post [] (EMAIL_API_URL (cfg st)) [(''email'', email), (''message'', message)] = Inr r1 \<and>
      post [Post (EMAIL_API_URL (cfg st)) [(''email'', email), (''message'', message)]]
        (SMS_API_URL (cfg st)) [(''phone'', phone), (''message'', message)] = Inl e \<longrightarrow>
      send_notification post st email phone message
      = ([(''error'', ''Error sending notification: '' @ str e)],
         [Post (EMAIL_API_URL (cfg st)) [(''email'', email), (''message'', message)],
          Post (SMS_API_URL (cfg st)) [(''phone'', phone), (''message'', message)],
          LogError (''Error sending notification: '' @ str e)]))
   \<and> (post [] (EMAIL_API_URL (cfg st)) [(''email'', email), (''message'', message)] = Inr r1 \<and>
      post [Post (EMAIL_API_URL (cfg st)) [(''email'', email), (''message'', message)]]
        (SMS_API_URL (cfg st)) [(''phone'', phone), (''message'', message)] = Inr r2 \<and>
      post [Post (EMAIL_API_URL (cfg st)) [(''email'', email), (''message'', message)],
            Post (SMS_API_URL (cfg st)) [(''phone'', phone), (''message'', message)]]
        (WHATSAPP_API_URL (cfg st)) [(''phone'', phone), (''message'', message)] = Inl e \<longrightarrow>
      send_notification post st email phone message
      = ([(''error'', ''Error sending notification: '' @ str e)],
         [Post (EMAIL_API_URL (cfg st)) [(''email'', email), (''message'', message)],
          Post (SMS_API_URL (cfg st)) [(''phone'', phone), (''message'', message)],
          Post (WHATSAPP_API_URL (cfg st)) [(''phone'', phone), (''message'', message)],
          LogError (''Error sending notification: '' @ str e)]))"
  by (simp add: send_notification_def Let_def)

theorem send_notification_fail_fast_witness:
  "(let st = startup Map.empty [''EMAIL_API_URL'' \<mapsto> ''http://mail'',
                               ''SMS_API_URL'' \<mapsto> ''http://sms'',
                               ''WHATSAPP_API_URL'' \<mapsto> ''http://wa'']
    in send_notification
         (\<lambda>trace url json. if url = Some ''http://mail'' then Inl (Exception ''down'')
                            else Inr ())
         st ''a@b.ro'' ''0700'' ''hi''
       = ([(''error'', ''Error sending notification: down'')],
          [Post (Some ''http://mail'') [(''email'', ''a@b.ro''), (''message'', ''hi'')],
           LogError ''Error sending notification: down''])
     \<and> send_notification
         (\<lambda>trace url json. if url = Some ''http://sms'' then Inl (Exception ''down'')
                            else Inr ())
         st ''a@b.ro'' ''0700'' ''hi''
       = ([(''error'', ''Error sending notification: down'')],
          [Post (Some ''http://mail'') [(''email'', ''a@b.ro''), (''message'', ''hi'')],
           Post (Some ''http://sms'') [(''phone'', ''0700''), (''message'', ''hi'')],
           LogError ''Error sending notification: down''])
     \<and> send_notification
         (\<lambda>trace url json. if url = Some ''http://wa'' then Inl (Exception ''down'')
                            else Inr ())
         st ''a@b.ro'' ''0700'' ''hi''
       = ([(''error'', ''Error sending notification: down'')],
          [Post (Some ''http://mail'') [(''email'', ''a@b.ro''), (''message'', ''hi'')],
           Post (Some ''http://sms'') [(''phone'', ''0700''), (''message'', ''hi'')],
           Post (Some ''http://wa'') [(''phone'', ''0700''), (''message'', ''hi'')],
           LogError ''Error sending notification: down'']))"
proof -
  let ?st = "startup Map.empty [''EMAIL_API_URL'' \<mapsto> ''http://mail'',
                               ''SMS_API_URL'' \<mapsto> ''http://sms'',
                               ''WHATSAPP_API_URL'' \<mapsto> ''http://wa'']"
  let ?down = "\<lambda>u. (\<lambda>(trace :: event list) url (json :: (string \<times> string) list).
                   if url = Some u then Inl (Exception ''down'') else (Inr () :: exn + unit))"
  have urls: "EMAIL_API_URL (cfg ?st) = Some ''http://mail''"
             "SMS_API_URL (cfg ?st) = Some ''http://sms''"
             "WHATSAPP_API_URL (cfg ?st) = Some ''http://wa''"
    by (simp_all add: startup_def load_dotenv_def Let_def)
  note inst = send_notification_fail_fast
               [where st = ?st and email = "''a@b.ro''" and phone = "''0700''"
                  and message = "''hi''" and e = "Exception ''down''" and ?r1.0 = "()"
                  and ?r2.0 = "()"]
  show ?thesis
    using inst [where post = "?down ''http://mail''"]
          inst [where post = "?down ''http://sms''"]
          inst [where post = "?down ''http://wa''"]
    by (simp add: urls Let_def)
qed

text \<open>
  Claim C10. For a plan that is none of "basic", "pro" and "enterprise", \<^verbatim>\<open>subscribe\<close>
  does not reject the request: it asks the payment provider for a session whose single
  line item has \<^verbatim>\<open>unit_amount\<close> 10000 (the basic price of 100 RON, times 100), and
  returns the provider's session id, or status 500 when the provider raises.
\<close>

theorem subscribe_unknown_plan_basic_price:
  assumes "plan request \<notin> {''basic'', ''pro'', ''enterprise''}"
  shows "subscribe create st request
         = (let params =
                  \<lparr>payment_method_types = [''card''],
                   line_items = [\<lparr>item_price_data =
                                    \<lparr>currency = ''ron'', product_data_name = plan request,
                                     unit_amount = 10000\<rparr>,
                                  quantity = 1\<rparr>],
                   mode = ''payment'',
                   success_url = ''https://'' @ format_opt (os_environ st ''APP_DOMAIN'')
                                   @ ''/success'',
                   cancel_url = ''https://'' @ format_opt (os_environ st ''APP_DOMAIN'')
                                   @ ''/cancel''\<rparr>
            in case create (STRIPE_API_KEY (cfg st)) params of
                 Inl e \<Rightarrow> (Inl (HTTPException 500 (str e)),
                           [SessionCreate (STRIPE_API_KEY (cfg st)) params,
                            LogError (''Error processing subscription: '' @ str e)])
               | Inr session_id \<Rightarrow> (Inr [(''session_id'', session_id)],
                           [SessionCreate (STRIPE_API_KEY (cfg st)) params]))"
  using assms
  by (simp add: subscribe_def plan_prices_def Let_def split: sum.splits)

theorem subscribe_unknown_plan_basic_price_witness:
  "subscribe (\<lambda>key params. Inr ''cs_1'')
     (startup [''APP_DOMAIN'' \<mapsto> ''fiscal.example''] [''STRIPE_SECRET_KEY'' \<mapsto> ''sk''])
     \<lparr>user_id = ''u1'', plan = ''premium''\<rparr>
   = (Inr [(''session_id'', ''cs_1'')],
      [SessionCreate (Some ''sk'')
         \<lparr>payment_method_types = [''card''],
          line_items = [\<lparr>item_price_data =
                           \<lparr>currency = ''ron'', product_data_name = ''premium'',
                            unit_amount = 10000\<rparr>,
                         quantity = 1\<rparr>],
          mode = ''payment'',
          success_url = ''https://fiscal.example/success'',
          cancel_url = ''https://fiscal.example/cancel''\<rparr>])"
proof -
  have a: "plan \<lparr>user_id = ''u1'', plan = ''premium''\<rparr> \<notin> {''basic'', ''pro'', ''enterprise''}"
    by simp
  show ?thesis
    using subscribe_unknown_plan_basic_price
            [where request = "\<lparr>user_id = ''u1'', plan = ''premium''\<rparr>"
               and create = "\<lambda>key params. Inr ''cs_1''"
               and st = "startup [''APP_DOMAIN'' \<mapsto> ''fiscal.example'']
                           [''STRIPE_SECRET_KEY'' \<mapsto> ''sk'']", OF a]
    by (simp add: Let_def startup_def load_dotenv_def format_opt_def)
qed

subsection \<open>Rounding to binary64\<close>

lemma ilog2_bounds: "1 \<le> n \<Longrightarrow> 2 ^ ilog2 n \<le> n \<and> n < 2 ^ Suc (ilog2 n)"
proof (induction n rule: ilog2.induct)
  case (1 n)
  show ?case
  proof (cases "n < 2")
    case True
    with "1.prems" have "n = 1" by simp
    then show ?thesis by (simp add: ilog2.simps)
  next
    case False
    then have h: "1 \<le> n div 2" by simp
    from "1.IH" [OF False h]
    have lo: "2 ^ ilog2 (n div 2) \<le> n div 2" and hi: "n div 2 < 2 ^ Suc (ilog2 (n div 2))"
      by simp_all
    have eq: "ilog2 n = Suc (ilog2 (n div 2))" using False by (simp add: ilog2.simps)
    have "2 * (n div 2) \<le> n" by simp
    with lo have a: "2 ^ Suc (ilog2 (n div 2)) \<le> n" by simp
    have "n < 2 * (n div 2) + 2" by presburger
    moreover from hi have "2 * (n div 2) + 2 \<le> 2 * 2 ^ Suc (ilog2 (n div 2))" by simp
    ultimately have b: "n < 2 ^ Suc (Suc (ilog2 (n div 2)))" by simp
    show ?thesis using a b eq by simp
  qed
qed

lemma round_half_even_le:
  assumes "0 < d" and "n \<le> K * d"
  shows "round_half_even n d \<le> K"
proof -
  have q: "n div d \<le> K" using assms
    by (metis div_mult_self_is_m zdiv_mono1 nonzero_mult_div_cancel_right less_irrefl)
  show ?thesis
  proof (cases "n div d < K")
    case True
    then show ?thesis by (simp add: round_half_even_def Let_def)
  next
    case False
    with q have e: "n div d = K" by simp
    have "n = d * (n div d) + n mod d" by simp
    with e assms have "n mod d \<le> 0" by (simp add: mult.commute)
    moreover have "0 \<le> n mod d" using assms by simp
    ultimately have "n mod d = 0" by simp
    then show ?thesis using e assms by (simp add: round_half_even_def Let_def)
  qed
qed

lemma round_half_even_ge:
  assumes "0 < d" and "K * d \<le> n"
  shows "K \<le> round_half_even n d"
proof -
  have "K \<le> n div d" using assms
    by (metis zdiv_mono1 nonzero_mult_div_cancel_right less_irrefl)
  then show ?thesis by (simp add: round_half_even_def Let_def)
qed

lemma powi_nat: "0 \<le> k \<Longrightarrow> (2::rat) powi k = 2 ^ nat k"
  by (simp add: power_int_def)

lemma powi_neg: "k < 0 \<Longrightarrow> (2::rat) powi k = 1 / 2 ^ nat (- k)"
  by (simp add: power_int_def field_simps)

lemma floor_log2_lower:
  assumes "0 < n" and "0 < d"
  shows "(2::rat) powi (floor_log2 n d) \<le> of_int n / of_int d"
proof -
  let ?a = "ilog2 n" and ?b = "ilog2 d"
  let ?g = "int ?a - int ?b"
  have n: "(2::rat) ^ ?a \<le> of_int n"
    using ilog2_bounds [of n] assms
    by (metis of_int_le_iff of_int_numeral of_int_power int_one_le_iff_zero_less)
  have d: "(of_int d :: rat) < 2 ^ Suc ?b"
    using ilog2_bounds [of d] assms
    by (metis of_int_less_iff of_int_numeral of_int_power int_one_le_iff_zero_less)
  have dpos: "(0::rat) < of_int d" using assms by simp
  show ?thesis
  proof (cases "if 0 \<le> ?g then d * 2 ^ nat ?g \<le> n else d \<le> n * 2 ^ nat (- ?g)")
    case True
    then have lg: "floor_log2 n d = ?g" by (simp add: floor_log2_def Let_def)
    show ?thesis
    proof (cases "0 \<le> ?g")
      case True
      with \<open>if 0 \<le> ?g then d * 2 ^ nat ?g \<le> n else d \<le> n * 2 ^ nat (- ?g)\<close>
      have "d * 2 ^ nat ?g \<le> n" by simp
      then have "(of_int (d * 2 ^ nat ?g) :: rat) \<le> of_int n" by (simp only: of_int_le_iff)
      then have "(of_int d :: rat) * 2 ^ nat ?g \<le> of_int n" by simp
      then have "(2::rat) ^ nat ?g \<le> of_int n / of_int d"
        using dpos by (simp add: field_simps)
      then show ?thesis using True lg by (simp add: powi_nat)
    next
      case False
      with \<open>if 0 \<le> ?g then d * 2 ^ nat ?g \<le> n else d \<le> n * 2 ^ nat (- ?g)\<close>
      have "d \<le> n * 2 ^ nat (- ?g)" by simp
      then have "(of_int d :: rat) \<le> of_int (n * 2 ^ nat (- ?g))" by (simp only: of_int_le_iff)
      then have "(of_int d :: rat) \<le> of_int n * 2 ^ nat (- ?g)" by simp
      then have "1 / (2::rat) ^ nat (- ?g) \<le> of_int n / of_int d"
        using dpos by (simp add: field_simps)
      then show ?thesis using False lg by (simp add: powi_neg)
    qed
  next
    case False
    then have lg: "floor_log2 n d = ?g - 1" by (simp add: floor_log2_def Let_def)
    have "(2::rat) powi (?g - 1) = 2 ^ ?a / 2 ^ Suc ?b"
      by (simp add: power_int_diff power_int_add)
    also have "\<dots> \<le> of_int n / 2 ^ Suc ?b"
      using n by (simp add: divide_right_mono)
    also have "\<dots> \<le> of_int n / of_int d"
      using d dpos assms by (simp add: frac_le)
    finally show ?thesis using lg by simp
  qed
qed

lemma floor_log2_upper:
  assumes "0 < n" and "0 < d"
  shows "of_int n / of_int d < (2::rat) powi (floor_log2 n d + 1)"
proof -
  let ?a = "ilog2 n" and ?b = "ilog2 d"
  let ?g = "int ?a - int ?b"
  have n: "(of_int n :: rat) < 2 ^ Suc ?a"
    using ilog2_bounds [of n] assms
    by (metis of_int_less_iff of_int_numeral of_int_power int_one_le_iff_zero_less)
  have d: "(2::rat) ^ ?b \<le> of_int d"
    using ilog2_bounds [of d] assms
    by (metis of_int_le_iff of_int_numeral of_int_power int_one_le_iff_zero_less)
  have dpos: "(0::rat) < of_int d" using assms by simp
  show ?thesis
  proof (cases "if 0 \<le> ?g then d * 2 ^ nat ?g \<le> n else d \<le> n * 2 ^ nat (- ?g)")
    case False
    then have lg: "floor_log2 n d = ?g - 1" by (simp add: floor_log2_def Let_def)
    show ?thesis
    proof (cases "0 \<le> ?g")
      case True
      with False have "n < d * 2 ^ nat ?g" by simp
      then have "(of_int n :: rat) < of_int (d * 2 ^ nat ?g)" by (simp only: of_int_less_iff)
      then have "(of_int n :: rat) < of_int d * 2 ^ nat ?g" by simp
      then have "of_int n / of_int d < (2::rat) ^ nat ?g"
        using dpos by (simp add: field_simps)
      then show ?thesis using True lg by (simp add: powi_nat)
    next
      case F: False
      with False have "n * 2 ^ nat (- ?g) < d" by simp
      then have "(of_int (n * 2 ^ nat (- ?g)) :: rat) < of_int d" by (simp only: of_int_less_iff)
      then have "(of_int n :: rat) * 2 ^ nat (- ?g) < of_int d" by simp
      then have "of_int n / of_int d < 1 / (2::rat) ^ nat (- ?g)"
        using dpos by (simp add: field_simps)
      then show ?thesis using F lg by (simp add: powi_neg)
    qed
  next
    case True
    then have lg: "floor_log2 n d = ?g" by (simp add: floor_log2_def Let_def)
    have "of_int n / of_int d \<le> (of_int n :: rat) / 2 ^ ?b"
      using d assms by (simp add: frac_le)
    also have "\<dots> < 2 ^ Suc ?a / 2 ^ ?b"
      using n by (simp add: divide_strict_right_mono)
    also have "\<dots> = (2::rat) powi (?g + 1)"
      by (simp add: power_int_diff power_int_add)
    finally show ?thesis using lg by simp
  qed
qed

lemma scaled_round_le:
  assumes "0 < d" and "of_int n / of_int d * (2::rat) powi k \<le> of_int K"
  shows "scaled_round n d k \<le> K"
proof (cases "0 \<le> k")
  case True
  have dpos: "(0::rat) < of_int d" using assms by simp
  from assms(2) True have "(of_int n :: rat) * 2 ^ nat k \<le> of_int K * of_int d"
    using dpos by (simp add: powi_nat field_simps)
  then have "(of_int (n * 2 ^ nat k) :: rat) \<le> of_int (K * d)" by simp
  then have "n * 2 ^ nat k \<le> K * d" by (simp only: of_int_le_iff)
  then show ?thesis using True assms(1) by (simp add: scaled_round_def round_half_even_le)
next
  case False
  have dpos: "(0::rat) < of_int d" using assms by simp
  from assms(2) False have "(of_int n :: rat) \<le> of_int K * (of_int d * 2 ^ nat (- k))"
    using dpos by (simp add: powi_neg field_simps)
  then have "(of_int n :: rat) \<le> of_int (K * (d * 2 ^ nat (- k)))" by simp
  then have "n \<le> K * (d * 2 ^ nat (- k))" by (simp only: of_int_le_iff)
  moreover have "0 < d * 2 ^ nat (- k)" using assms(1) by simp
  ultimately show ?thesis using False by (simp add: scaled_round_def round_half_even_le)
qed

lemma scaled_round_ge:
  assumes "0 < d" and "of_int K \<le> of_int n / of_int d * (2::rat) powi k"
  shows "K \<le> scaled_round n d k"
proof (cases "0 \<le> k")
  case True
  have dpos: "(0::rat) < of_int d" using assms by simp
  from assms(2) True have "of_int K * of_int d \<le> (of_int n :: rat) * 2 ^ nat k"
    using dpos by (simp add: powi_nat field_simps)
  then have "(of_int (K * d) :: rat) \<le> of_int (n * 2 ^ nat k)" by simp
  then have "K * d \<le> n * 2 ^ nat k" by (simp only: of_int_le_iff)
  then show ?thesis using True assms(1) by (simp add: scaled_round_def round_half_even_ge)
next
  case False
  have dpos: "(0::rat) < of_int d" using assms by simp
  from assms(2) False have "of_int K * (of_int d * 2 ^ nat (- k)) \<le> (of_int n :: rat)"
    using dpos by (simp add: powi_neg field_simps)
  then have "(of_int (K * (d * 2 ^ nat (- k))) :: rat) \<le> of_int n" by simp
  then have "K * (d * 2 ^ nat (- k)) \<le> n" by (simp only: of_int_le_iff)
  moreover have "0 < d * 2 ^ nat (- k)" using assms(1) by simp
  ultimately show ?thesis using False by (simp add: scaled_round_def round_half_even_ge)
qed

lemma round_to_double_is_double:
  assumes "0 \<le> n" and "0 < d"
  shows "is_double (round_to_double s n d e)"
proof (cases "n = 0")
  case True
  then show ?thesis by (simp add: round_to_double_def is_double_def)
next
  case False
  with assms have npos: "0 < n" by simp
  define lg where "lg = floor_log2 n d"
  define ulp where "ulp = max (lg + e - 52) (- 1074)"
  define k where "k = e - ulp"
  define m where "m = scaled_round n d k"
  let ?v = "of_int n / of_int d :: rat"
  have lo: "(2::rat) powi lg \<le> ?v" and hi: "?v < 2 powi (lg + 1)"
    using floor_log2_lower [OF npos assms(2)] floor_log2_upper [OF npos assms(2)]
    by (simp_all add: lg_def)
  have vpos: "0 < ?v" using npos assms(2) by simp
  have kle: "lg + 1 + k \<le> 53" by (simp add: k_def ulp_def)
  have "?v * 2 powi k < 2 powi (lg + 1) * 2 powi k"
    by (rule mult_strict_right_mono [OF hi]) simp
  also have "\<dots> = 2 powi (lg + 1 + k)" by (simp add: power_int_add)
  also have "\<dots> \<le> 2 powi 53" using kle by (intro power_int_increasing) simp_all
  finally have up: "?v * 2 powi k \<le> of_int (2 ^ 53)" by simp
  have m_le: "m \<le> 2 ^ 53"
    unfolding m_def using scaled_round_le [OF assms(2) up] .
  have "0 \<le> ?v * 2 powi k" using vpos by (intro mult_nonneg_nonneg) simp_all
  then have "of_int 0 \<le> ?v * 2 powi k" by simp
  then have m_ge0: "0 \<le> m"
    unfolding m_def using scaled_round_ge [OF assms(2)] by blast
  have ulp_ge: "- 1074 \<le> ulp" by (simp add: ulp_def)
  have res: "round_to_double s n d e =
        (if m = 2 ^ 53
         then (if 971 < ulp + 1 then Infinity s else Finite s (2 ^ 52) (ulp + 1))
         else (if 971 < ulp then Infinity s else Finite s m ulp))"
    unfolding round_to_double_def Let_def m_def k_def ulp_def lg_def
    by (simp only: False if_False)
  show ?thesis
  proof (cases "ulp = lg + e - 52")
    case True
    then have "lg + k = 52" by (simp add: k_def)
    then have "(2::rat) powi 52 = 2 powi lg * 2 powi k"
      by (simp flip: power_int_add)
    also have "\<dots> \<le> ?v * 2 powi k" by (rule mult_right_mono [OF lo]) simp
    finally have "of_int (2 ^ 52) \<le> ?v * 2 powi k" by simp
    then have "2 ^ 52 \<le> m"
      unfolding m_def using scaled_round_ge [OF assms(2)] by blast
    then show ?thesis using m_le ulp_ge by (auto simp: res is_double_def)
  next
    case False
    then have u: "ulp = - 1074" and "lg + e - 52 < - 1074" by (simp_all add: ulp_def max_def split: if_splits)
    then have kle': "lg + 1 + k \<le> 52" by (simp add: k_def)
    have "?v * 2 powi k < 2 powi (lg + 1) * 2 powi k"
      by (rule mult_strict_right_mono [OF hi]) simp
    also have "\<dots> = 2 powi (lg + 1 + k)" by (simp add: power_int_add)
    also have "\<dots> \<le> 2 powi 52" using kle' by (intro power_int_increasing) simp_all
    finally have "?v * 2 powi k \<le> of_int (2 ^ 52)" by simp
    then have "m \<le> 2 ^ 52"
      unfolding m_def using scaled_round_le [OF assms(2)] by blast
    then show ?thesis using m_ge0 u by (auto simp: res is_double_def)
  qed
qed

lemma is_double_mantissa: "is_double (Finite s m e) \<Longrightarrow> 0 \<le> m \<and> m < 2 ^ 53 \<and> e \<le> 971"
  by (auto simp: is_double_def)

lemma is_double_zero: "is_double (Finite s 0 (- 1074))"
  by (simp add: is_double_def)

lemma float_mul_is_double:
  assumes "is_double x" and "is_double y"
  shows "is_double (float_mul x y)"
proof (cases x)
  case fx: (Finite s1 m1 e1)
  show ?thesis
  proof (cases y)
    case (Finite s2 m2 e2)
    with fx assms have "0 \<le> m1 * m2" by (auto dest!: is_double_mantissa)
    then show ?thesis using fx Finite by (simp add: round_to_double_is_double)
  qed (simp_all add: fx is_double_def)
next
  case (Infinity s1)
  then show ?thesis by (cases y) (simp_all add: is_double_def)
next
  case NaN
  then show ?thesis by (simp add: is_double_def)
qed

lemma float_add_is_double:
  assumes "is_double x" and "is_double y"
  shows "is_double (float_add x y)"
proof (cases x)
  case fx: (Finite s1 m1 e1)
  show ?thesis
  proof (cases y)
    case (Finite s2 m2 e2)
    then show ?thesis using fx
      by (simp add: Let_def round_to_double_is_double is_double_zero)
  qed (simp_all add: fx is_double_def)
next
  case (Infinity s1)
  then show ?thesis by (cases y) (simp_all add: is_double_def)
next
  case NaN
  then show ?thesis by (simp add: is_double_def)
qed

lemma float_truediv_is_double:
  assumes "is_double x" and "is_double (Finite s2 m2 e2)" and "m2 \<noteq> 0"
  shows "\<exists>q. float_truediv x (Finite s2 m2 e2) = Inr q \<and> is_double q"
proof -
  from assms have d: "0 < m2" by (auto dest!: is_double_mantissa)
  show ?thesis
  proof (cases x)
    case (Finite s1 m1 e1)
    with assms(1) have "0 \<le> m1" by (auto dest!: is_double_mantissa)
    then show ?thesis using Finite d assms(3) by (simp add: round_to_double_is_double)
  qed (simp_all add: assms(3) is_double_def)
qed

lemma round_to_double_no_overflow:
  assumes "0 \<le> n" and "0 < d"
      and bound: "of_int n / of_int d * (2::rat) powi e \<le> of_int ((2 ^ 53 - 1) * 2 ^ 971)"
  shows "round_to_double s n d e \<noteq> Infinity s'"
proof (cases "n = 0")
  case True
  then show ?thesis by (simp add: round_to_double_def)
next
  case False
  with assms have npos: "0 < n" by simp
  define lg where "lg = floor_log2 n d"
  define ulp where "ulp = max (lg + e - 52) (- 1074)"
  define k where "k = e - ulp"
  define m where "m = scaled_round n d k"
  let ?v = "of_int n / of_int d :: rat"
  have lo: "(2::rat) powi lg \<le> ?v"
    using floor_log2_lower [OF npos assms(2)] by (simp add: lg_def)
  have res: "round_to_double s n d e =
        (if m = 2 ^ 53
         then (if 971 < ulp + 1 then Infinity s else Finite s (2 ^ 52) (ulp + 1))
         else (if 971 < ulp then Infinity s else Finite s m ulp))"
    unfolding round_to_double_def Let_def m_def k_def ulp_def lg_def
    by (simp only: False if_False)
  have "(2::rat) powi (lg + e) = 2 powi lg * 2 powi e" by (simp add: power_int_add)
  also have "\<dots> \<le> ?v * 2 powi e" by (rule mult_right_mono [OF lo]) simp
  also have "\<dots> \<le> of_int ((2 ^ 53 - 1) * 2 ^ 971)" by (rule bound)
  also have "\<dots> < (2::rat) powi 1024" by simp
  finally have lt: "(2::rat) powi (lg + e) < 2 powi 1024" .
  have lge: "lg + e < 1024"
  proof (rule ccontr)
    assume "\<not> lg + e < 1024"
    then have "1024 \<le> lg + e" by simp
    then have "(2::rat) powi 1024 \<le> 2 powi (lg + e)"
      by (intro power_int_increasing) simp_all
    with lt show False by simp
  qed
  then have ulp_le: "ulp \<le> 971" by (simp add: ulp_def)
  show ?thesis
  proof (cases "ulp = 971")
    case True
    then have kk: "k = e - 971" by (simp add: k_def)
    have "?v * 2 powi k = ?v * 2 powi e * 2 powi (- 971)"
      by (simp add: kk power_int_add power_int_diff power_int_minus field_simps)
    also have "\<dots> \<le> of_int ((2 ^ 53 - 1) * 2 ^ 971) * 2 powi (- 971)"
      by (rule mult_right_mono [OF bound]) simp
    also have "\<dots> = of_int (2 ^ 53 - 1)"
      by (simp add: power_int_minus)
    finally have "m \<le> 2 ^ 53 - 1"
      unfolding m_def using scaled_round_le [OF assms(2)] by blast
    then have "m \<noteq> 2 ^ 53" by simp
    then show ?thesis using True by (simp add: res)
  next
    case False
    with ulp_le have "ulp + 1 \<le> 971" by simp
    then show ?thesis by (simp add: res)
  qed
qed

lemma py_round_two_digits:
  assumes "is_double x"
  shows "\<exists>r. py_round x 2 = Inr r \<and> is_double r"
proof (cases x)
  case (Finite s m e)
  with assms have m: "0 \<le> m" "m \<le> 2 ^ 53 - 1" and e: "e \<le> 971"
    by (auto dest!: is_double_mantissa)
  define c where "c = scaled_round (m * 10 ^ 2) 1 e"
  have "of_int 0 \<le> of_int (m * 10 ^ 2) / of_int 1 * (2::rat) powi e"
    using m by simp
  then have c0: "0 \<le> c"
    unfolding c_def using scaled_round_ge [of 1 0 "m * 10 ^ 2" e] by simp
  have cb: "of_int c / of_int (10 ^ 2) * (2::rat) powi 0 \<le> of_int ((2 ^ 53 - 1) * 2 ^ 971)"
  proof (cases "0 \<le> e")
    case True
    have "of_int (m * 10 ^ 2) / of_int 1 * (2::rat) powi e \<le> of_int (m * 10 ^ 2 * 2 ^ nat e)"
      using True by (simp add: powi_nat)
    then have "c \<le> m * 10 ^ 2 * 2 ^ nat e"
      unfolding c_def using scaled_round_le [of 1 "m * 10 ^ 2" e] by simp
    also have "\<dots> \<le> (2 ^ 53 - 1) * 10 ^ 2 * 2 ^ nat e"
      using m by (intro mult_right_mono) simp_all
    also have "\<dots> \<le> (2 ^ 53 - 1) * 10 ^ 2 * 2 ^ 971"
      using e True by (intro mult_left_mono power_increasing) simp_all
    finally have "c \<le> (2 ^ 53 - 1) * 2 ^ 971 * 100" by simp
    then have "(of_int c :: rat) \<le> of_int ((2 ^ 53 - 1) * 2 ^ 971 * 100)"
      by (simp only: of_int_le_iff)
    then show ?thesis by simp
  next
    case False
    have "(2::rat) powi e \<le> 1" using False by (simp add: powi_neg)
    then have "of_int (m * 10 ^ 2) * (2::rat) powi e \<le> of_int (m * 10 ^ 2) * 1"
      using m by (intro mult_left_mono) simp_all
    then have "of_int (m * 10 ^ 2) / of_int 1 * (2::rat) powi e \<le> of_int (m * 10 ^ 2)"
      by simp
    then have "c \<le> m * 10 ^ 2"
      unfolding c_def using scaled_round_le [of 1 "m * 10 ^ 2" e] by simp
    also have "\<dots> \<le> (2 ^ 53 - 1) * 10 ^ 2" using m by simp
    also have "\<dots> \<le> (2 ^ 53 - 1) * 2 ^ 971 * 100" by simp
    finally have "(of_int c :: rat) \<le> of_int ((2 ^ 53 - 1) * 2 ^ 971 * 100)"
      by (simp only: of_int_le_iff)
    then show ?thesis by simp
  qed
  have fin: "round_to_double s c (10 ^ 2) 0 \<noteq> Infinity s'" for s'
    using round_to_double_no_overflow [OF c0 _ cb] by simp
  have dbl: "is_double (round_to_double s c (10 ^ 2) 0)"
    using round_to_double_is_double [OF c0] by simp
  show ?thesis
    using fin dbl unfolding py_round_def Finite Let_def
    by (cases "round_to_double s c (10 ^ 2) 0") (simp_all add: c_def)
qed (simp_all add: py_round_def is_double_def)

lemma float_of_int_100: "float_of_int 100 = Inr (Finite False (100 * 2 ^ 46) (- 46))"
  by (simp add: float_of_int_def round_to_double_def floor_log2_def scaled_round_def
        round_half_even_def ilog2.simps Let_def)

text \<open>
  Claim C5. For every tax request (two binary64 numbers), \<^verbatim>\<open>calculate_tva\<close> raises
  nothing and returns \<^verbatim>\<open>TVA\<close> = \<^verbatim>\<open>suma * (cota_tva / 100)\<close> and \<^verbatim>\<open>Total\<close> = \<^verbatim>\<open>suma\<close> plus that
  product, in float arithmetic, each rounded to 2 decimals by \<^verbatim>\<open>round\<close>. For \<^verbatim>\<open>suma\<close> = 100
  and \<^verbatim>\<open>cota_tva\<close> = 19 the result is \<^verbatim>\<open>TVA\<close> = 19.0 and \<^verbatim>\<open>Total\<close> = 119.0; for
  \<^verbatim>\<open>suma\<close> = 0 and \<^verbatim>\<open>cota_tva\<close> = 19 it is \<^verbatim>\<open>TVA\<close> = 0.0 and \<^verbatim>\<open>Total\<close> = 0.0.
\<close>

theorem calculate_tva_rounded:
  "(is_double (suma request) \<and> is_double (cota_tva request) \<longrightarrow>
      (\<exists>rate r_tva r_total.
          float_truediv (cota_tva request) (Finite False (100 * 2 ^ 46) (- 46)) = Inr rate
        \<and> py_round (float_mul (suma request) rate) 2 = Inr r_tva
        \<and> py_round (float_add (suma request) (float_mul (suma request) rate)) 2 = Inr r_total
        \<and> is_double r_tva \<and> is_double r_total
        \<and> calculate_tva request = Inr \<lparr>TVA = r_tva, Total = r_total\<rparr>))
   \<and> calculate_tva \<lparr>suma = Finite False (100 * 2 ^ 46) (- 46),
                     cota_tva = Finite False (19 * 2 ^ 48) (- 48)\<rparr>
       = Inr \<lparr>TVA = Finite False (19 * 2 ^ 48) (- 48), Total = Finite False (119 * 2 ^ 46) (- 46)\<rparr>
   \<and> calculate_tva \<lparr>suma = Finite False 0 (- 1074),
                     cota_tva = Finite False (19 * 2 ^ 48) (- 48)\<rparr>
       = Inr \<lparr>TVA = Finite False 0 (- 1074), Total = Finite False 0 (- 1074)\<rparr>"
proof (intro conjI impI)
  assume a: "is_double (suma request) \<and> is_double (cota_tva request)"
  have h: "is_double (Finite False (100 * 2 ^ 46) (- 46))" by (simp add: is_double_def)
  obtain rate where rate: "float_truediv (cota_tva request) (Finite False (100 * 2 ^ 46) (- 46)) = Inr rate"
    and drate: "is_double rate"
    using float_truediv_is_double [OF _ h, of "cota_tva request"] a by auto
  let ?tva = "float_mul (suma request) rate"
  let ?total = "float_add (suma request) ?tva"
  have dtva: "is_double ?tva" using a drate by (simp add: float_mul_is_double)
  have dtotal: "is_double ?total" using a dtva by (simp add: float_add_is_double)
  obtain r_tva where r1: "py_round ?tva 2 = Inr r_tva" "is_double r_tva"
    using py_round_two_digits [OF dtva] by auto
  obtain r_total where r2: "py_round ?total 2 = Inr r_total" "is_double r_total"
    using py_round_two_digits [OF dtotal] by auto
  have "calculate_tva request = Inr \<lparr>TVA = r_tva, Total = r_total\<rparr>"
    by (simp only: calculate_tva_def float_of_int_100 sum.case rate Let_def r1 r2)
  with rate r1 r2 show "\<exists>rate r_tva r_total.
          float_truediv (cota_tva request) (Finite False (100 * 2 ^ 46) (- 46)) = Inr rate
        \<and> py_round (float_mul (suma request) rate) 2 = Inr r_tva
        \<and> py_round (float_add (suma request) (float_mul (suma request) rate)) 2 = Inr r_total
        \<and> is_double r_tva \<and> is_double r_total
        \<and> calculate_tva request = Inr \<lparr>TVA = r_tva, Total = r_total\<rparr>"
    by blast
next
  show "calculate_tva \<lparr>suma = Finite False (100 * 2 ^ 46) (- 46),
                     cota_tva = Finite False (19 * 2 ^ 48) (- 48)\<rparr>
       = Inr \<lparr>TVA = Finite False (19 * 2 ^ 48) (- 48), Total = Finite False (119 * 2 ^ 46) (- 46)\<rparr>"
    by (simp add: calculate_tva_def float_of_int_def round_to_double_def floor_log2_def
          scaled_round_def round_half_even_def py_round_def ilog2.simps Let_def)
next
  show "calculate_tva \<lparr>suma = Finite False 0 (- 1074),
                     cota_tva = Finite False (19 * 2 ^ 48) (- 48)\<rparr>
       = Inr \<lparr>TVA = Finite False 0 (- 1074), Total = Finite False 0 (- 1074)\<rparr>"
    by (simp add: calculate_tva_def float_of_int_def round_to_double_def floor_log2_def
          scaled_round_def round_half_even_def py_round_def ilog2.simps Let_def)
qed

theorem calculate_tva_rounded_witness:
  "is_double (Finite False (2 ^ 52) (- 53)) \<and> is_double (Finite False (2 ^ 52) (- 52))
   \<and> calculate_tva \<lparr>suma = Finite False (2 ^ 52) (- 53), cota_tva = Finite False (2 ^ 52) (- 52)\<rparr>
       = Inr \<lparr>TVA = Finite False 5764607523034235 (- 59),
              Total = Finite False 4593671619917906 (- 53)\<rparr>"
proof -
  let ?request = "\<lparr>suma = Finite False (2 ^ 52) (- 53), cota_tva = Finite False (2 ^ 52) (- 52)\<rparr>"
  have a: "is_double (suma ?request) \<and> is_double (cota_tva ?request)"
    by (simp add: is_double_def)
  have b: "float_truediv (cota_tva ?request) (Finite False (100 * 2 ^ 46) (- 46))
           = Inr (Finite False 5764607523034235 (- 59))"
    by (simp add: round_to_double_def floor_log2_def scaled_round_def round_half_even_def
          ilog2.simps Let_def)
  have c: "py_round (float_mul (suma ?request) (Finite False 5764607523034235 (- 59))) 2
           = Inr (Finite False 5764607523034235 (- 59))"
    by (simp add: py_round_def round_to_double_def floor_log2_def scaled_round_def
          round_half_even_def ilog2.simps Let_def)
  have d: "py_round (float_add (suma ?request)
                      (float_mul (suma ?request) (Finite False 5764607523034235 (- 59)))) 2
           = Inr (Finite False 4593671619917906 (- 53))"
    by (simp add: py_round_def round_to_double_def floor_log2_def scaled_round_def
          round_half_even_def ilog2.simps Let_def)
  from calculate_tva_rounded [of ?request] a
  obtain rate r_tva r_total where
    o1: "float_truediv (cota_tva ?request) (Finite False (100 * 2 ^ 46) (- 46)) = Inr rate" and
    o2: "py_round (float_mul (suma ?request) rate) 2 = Inr r_tva" and
    o3: "py_round (float_add (suma ?request) (float_mul (suma ?request) rate)) 2 = Inr r_total"
    and o4: "calculate_tva ?request = Inr \<lparr>TVA = r_tva, Total = r_total\<rparr>"
    by blast
  from o1 [unfolded b] have r: "rate = Finite False 5764607523034235 (- 59)" by simp
  from o2 [unfolded r c] have r1: "r_tva = Finite False 5764607523034235 (- 59)" by simp
  from o3 [unfolded r d] have r2: "r_total = Finite False 4593671619917906 (- 53)" by simp
  from a o4 [unfolded r1 r2] show ?thesis by simp
qed

end
